theory Spec2Isabelle
  imports Main "HOL-Library.AList"
begin

section \<open>Go standard-library string and path helpers used by the client\<close>

text \<open>
  Go strings are byte sequences; they are modelled as \<open>string\<close> (a list of 8-bit
  characters). Only the separator \<open>/\<close> is ever passed as cutset or separator, so the
  helpers take a single character.
\<close>

abbreviation slash :: char where
  "slash \<equiv> CHR ''/''"

text \<open>\<open>strings.Trim(s, "/")\<close>: drop every leading and every trailing separator.\<close>

definition strings_Trim :: "char \<Rightarrow> string \<Rightarrow> string" where
  "strings_Trim c s = rev (dropWhile (\<lambda>x. x = c) (rev (dropWhile (\<lambda>x. x = c) s)))"

text \<open>
  \<open>strings.Split(s, "/")\<close>: the substrings between separators; a string with \<open>n\<close>
  separators gives \<open>n + 1\<close> substrings, so the empty string gives one empty substring.
\<close>

fun strings_Split :: "char \<Rightarrow> string \<Rightarrow> string list" where
  "strings_Split c [] = [[]]"
| "strings_Split c (x # xs) =
     (let r = strings_Split c xs
      in if x = c then [] # r else (x # hd r) # tl r)"

text \<open>\<open>strings.Join(elems, "/")\<close>.\<close>

fun strings_Join :: "string \<Rightarrow> string list \<Rightarrow> string" where
  "strings_Join sep [] = []"
| "strings_Join sep [x] = x"
| "strings_Join sep (x # y # ys) = x @ sep @ strings_Join sep (y # ys)"

section \<open>client.ParsePath (client.go)\<close>

definition ParsePath :: "string \<Rightarrow> string \<times> string" where
  "ParsePath path =
     (let trimmedPath = strings_Trim slash path;
          segments = strings_Split slash trimmedPath
      in if length segments > 1
         then (''/'' @ strings_Join ''/'' (butlast segments), last segments)
         else (''/'', hd segments))"


section \<open>Go's \<open>path\<close> package\<close>

text \<open>
  \<open>path.Clean\<close> works on the components between separators: empty components and
  \<open>.\<close> are dropped, \<open>..\<close> removes the component before it (at the root it is
  dropped, in a relative path with nothing left to remove it is kept). The stack holds the
  components kept so far, last one first.
\<close>

fun clean_step :: "bool \<Rightarrow> string list \<Rightarrow> string \<Rightarrow> string list" where
  "clean_step rooted st el =
     (if el = [] \<or> el = ''.'' then st
      else if el = ''..'' then
        (case st of
           [] \<Rightarrow> if rooted then [] else [''..'']
         | prev # rest \<Rightarrow> if prev = ''..'' then ''..'' # st else rest)
      else el # st)"

definition path_Clean :: "string \<Rightarrow> string" where
  "path_Clean p =
     (if p = [] then ''.''
      else
        let rooted = (hd p = slash);
            st = foldl (clean_step rooted) [] (strings_Split slash p);
            body = strings_Join ''/'' (rev st)
        in if rooted then slash # body
           else if body = [] then ''.'' else body)"



text \<open>\<open>path.Base\<close>: the last element of the path, trailing separators removed first.\<close>

definition path_Base :: "string \<Rightarrow> string" where
  "path_Base p =
     (if p = [] then ''.''
      else
        let stripped = rev (dropWhile (\<lambda>x. x = slash) (rev p));
            el = rev (takeWhile (\<lambda>x. x \<noteq> slash) (rev stripped))
        in if el = [] then ''/'' else el)"

text \<open>\<open>path.Dir\<close>: everything up to and including the final separator, cleaned.\<close>

definition path_Dir :: "string \<Rightarrow> string" where
  "path_Dir p = path_Clean (rev (dropWhile (\<lambda>x. x \<noteq> slash) (rev p)))"

section \<open>Errors and control outcomes\<close>

text \<open>
  Every error value the modelled code can return. \<open>External\<close> stands for an error
  produced outside the repository (transport, JSON decoder, UUID source, cache, reader);
  \<open>Wrapped\<close> is \<open>fmt.Errorf("<context>: %w", err)\<close>.
\<close>

datatype error =
    ErrNoToken
  | ErrUnexpectedType
  | ErrExpiredRefreshToken
  | ErrUnknownType
  | ErrUnexpectedStatus int
  | ErrNoFolder
  | ErrNoFile
  | ErrNotSupported
  | ErrEmptyFile
  | EOF
  | External string
  | Wrapped string error
  | UnexpectedStatusCode int
  | ApiError string
  | CreateDirectoryFailed int string
  | MoveDirectoryFailed int string
  | ChunkFailedResponse int int string
  | ChunkFailedMessage int int string
  | NoResponseFromEndpoint

text \<open>
  A Go call either returns or panics (nil dereference, index out of range). \<open>Return\<close>
  carries what the call returns.
\<close>

datatype 'a exec = Panic | Return 'a

section \<open>Files, folders and backend responses (files.go)\<close>

record File =
  File_ID :: string
  File_Name :: string
  File_Type :: string
  File_Size :: int
  File_DateAdded :: int
  File_FolderPath :: string

datatype Folder =
  Folder (Folder_Name: string) (Folder_Path: string) (Folder_Size: int)
         (Folder_Version: string) (Folder_Count: int)
         (Subfolders: "Folder list") (Files: "File list")

text \<open>\<open>Folder.Flatten\<close>: the folder itself, then each subfolder flattened, in order.\<close>

fun Flatten :: "Folder \<Rightarrow> Folder list" where
  "Flatten (Folder n p s v c subs fs) =
     Folder n p s v c subs fs # concat (map Flatten subs)"


record defaultResponse =
  Success :: bool
  Message :: string

record FolderResponse = defaultResponse +
  Response_Folder :: Folder

record AuthResponse =
  Username :: string
  Token :: string
  TokenExpiration :: int
  RefreshToken :: string
  RefreshTokenExpiration :: int

text \<open>
  A response as the client reads it: the status code, the raw body (\<open>Data\<close>), and what
  \<open>Decode\<close> gives for each target type the client decodes into.
\<close>

record Response =
  StatusCode :: int
  Data :: string
  Decode_default :: "error + defaultResponse"
  Decode_folder :: "error + FolderResponse"
  Decode_file :: "error + File"
  Decode_auth :: "error + AuthResponse"

text \<open>
  The requests the client passes to \<open>doRequest\<close>, by endpoint and body. An upload
  request carries the multipart fields, the file name and the number of payload bytes.
  The last two are the requests of the auth manager (user name, password and second factor;
  the refresh token), which go to \<open>doHttpRequest\<close> directly.
\<close>

datatype request =
    GetFoldersReq
  | GetFolderReq string
  | PutFolderReq string string
  | EditFileReq string string
  | PatchFolderReq string string string
  | DownloadReq string
  | UploadReq "(string \<times> string) list" string nat
  | AuthenticateReq string string string
  | RefreshReq string

text \<open>
  The backend as the client sees it through \<open>doRequest\<close>: for each request either an
  error (no token, bad URL, transport failure) or a response.
\<close>

type_synonym backend = "request \<Rightarrow> error + Response"

definition GetFolders :: "backend \<Rightarrow> error + Folder list" where
  "GetFolders be =
     (case be GetFoldersReq of
        Inl err \<Rightarrow> Inl err
      | Inr res \<Rightarrow>
          if StatusCode res \<noteq> 200 then Inl (ErrUnexpectedStatus (StatusCode res))
          else (case Decode_folder res of
                  Inl err \<Rightarrow> Inl err
                | Inr response \<Rightarrow> Inr (Flatten (Response_Folder response))))"

definition GetFolder :: "backend \<Rightarrow> string \<Rightarrow> error + Folder" where
  "GetFolder be folder =
     (case be (GetFolderReq folder) of
        Inl err \<Rightarrow> Inl err
      | Inr res \<Rightarrow>
          if StatusCode res \<noteq> 200 then Inl (ErrUnexpectedStatus (StatusCode res))
          else (case Decode_folder res of
                  Inl err \<Rightarrow> Inl err
                | Inr folderResponse \<Rightarrow>
                    if \<not> Success folderResponse then
                      (if Message folderResponse = ''Folder not found'' then Inl ErrNoFolder
                       else Inl (ApiError (Message folderResponse)))
                    else Inr (Response_Folder folderResponse)))"

subsection \<open>client.Find\<close>

text \<open>
  The first half of \<open>Find\<close>: the folder to search, with the requests issued. The root
  folder is element 0 of \<open>GetFolders\<close>; indexing an empty slice panics.
\<close>

definition Find_parent :: "backend \<Rightarrow> string \<Rightarrow> (error + Folder) exec \<times> request list" where
  "Find_parent be base =
     (if base = [] \<or> base = ''/'' then
        (case GetFolders be of
           Inl err \<Rightarrow> (Return (Inl err), [GetFoldersReq])
         | Inr folders \<Rightarrow>
             (case folders of
                [] \<Rightarrow> (Panic, [GetFoldersReq])
              | folder # _ \<Rightarrow> (Return (Inr folder), [GetFoldersReq])))
      else
        (case GetFolder be base of
           Inl err \<Rightarrow> (Return (Inl err), [GetFolderReq base])
         | Inr folder \<Rightarrow> (Return (Inr folder), [GetFolderReq base])))"

text \<open>
  \<open>Find\<close> returns Go's triple (folder, file, error), each possibly nil. In the source the
  test for an empty name stands inside the root branch; here it follows the folder lookup
  with the branch condition repeated, which is the same computation.
\<close>

definition Find ::
  "backend \<Rightarrow> string \<Rightarrow> (Folder option \<times> File option \<times> error option) exec \<times> request list" where
  "Find be file =
     (let (base, name) = ParsePath file
      in case Find_parent be base of
           (Panic, tr) \<Rightarrow> (Panic, tr)
         | (Return (Inl err), tr) \<Rightarrow> (Return (None, None, Some err), tr)
         | (Return (Inr folder), tr) \<Rightarrow>
             if (base = [] \<or> base = ''/'') \<and> name = [] then (Return (Some folder, None, None), tr)
             else
               (case find (\<lambda>file. File_Name file = name) (Files folder) of
                  Some file \<Rightarrow> (Return (None, Some file, None), tr)
                | None \<Rightarrow>
                    (case find (\<lambda>folder. Folder_Name folder = name) (Subfolders folder) of
                       Some folder \<Rightarrow> (Return (Some folder, None, None), tr)
                     | None \<Rightarrow> (Return (None, None, Some ErrNoFile), tr))))"

section \<open>A sample backend for evaluating the client on concrete trees\<close>

definition folder_ok :: "Folder \<Rightarrow> Response" where
  "folder_ok f =
     \<lparr>StatusCode = 200, Data = [],
      Decode_default = Inr \<lparr>Success = True, Message = []\<rparr>,
      Decode_folder = Inr \<lparr>Success = True, Message = [], Response_Folder = f\<rparr>,
      Decode_file = Inl (External ''not a file''),
      Decode_auth = Inl (External ''not a credential'')\<rparr>"

definition folder_missing :: Response where
  "folder_missing =
     \<lparr>StatusCode = 200, Data = [],
      Decode_default = Inr \<lparr>Success = False, Message = ''Folder not found''\<rparr>,
      Decode_folder = Inr \<lparr>Success = False, Message = ''Folder not found'',
                             Response_Folder = Folder [] [] 0 [] 0 [] []\<rparr>,
      Decode_file = Inl (External ''not a file''),
      Decode_auth = Inl (External ''not a credential'')\<rparr>"

definition sample_file :: "string \<Rightarrow> string \<Rightarrow> string \<Rightarrow> File" where
  "sample_file i n p =
     \<lparr>File_ID = i, File_Name = n, File_Type = ''text/plain'', File_Size = 10,
      File_DateAdded = 0, File_FolderPath = p\<rparr>"

definition sample_A :: Folder where
  "sample_A = Folder ''A'' ''/A'' 10 [] 1
                [Folder ''B'' ''/A/B'' 0 [] 0 [] []]
                [sample_file ''f1'' ''x.txt'' ''/A'']"

definition sample_root :: Folder where
  "sample_root = Folder [] ''/'' 20 [] 1
                   [sample_A, Folder ''dup'' ''/dup'' 0 [] 0 [] []]
                   [sample_file ''f2'' ''dup'' ''/'']"

definition sample_backend :: backend where
  "sample_backend r =
     (case r of
        GetFoldersReq \<Rightarrow> Inr (folder_ok sample_root)
      | GetFolderReq p \<Rightarrow> Inr (if p = ''/A'' then folder_ok sample_A else folder_missing)
      | _ \<Rightarrow> Inr (folder_ok sample_root))"

section \<open>Folder and file mutations of the client (files.go)\<close>


definition RenameFile :: "backend \<Rightarrow> string \<Rightarrow> string \<Rightarrow> error option \<times> request list" where
  "RenameFile be fileID name =
     (let req = EditFileReq fileID name
      in ((case be req of
             Inl err \<Rightarrow> Some err
           | Inr res \<Rightarrow>
               if StatusCode res \<noteq> 200 then Some (ErrUnexpectedStatus (StatusCode res))
               else (case Decode_default res of
                       Inl err \<Rightarrow> Some err
                     | Inr response \<Rightarrow>
                         if \<not> Success response
                         then Some (CreateDirectoryFailed (StatusCode res) (Message response))
                         else None)),
          [req]))"

text \<open>
  \<open>MoveFolder(folder, newParentFolder)\<close> of files.go: the folder-patch request carries
  the folder, the new parent and, as new folder name, the leaf of the folder's own path.
\<close>

definition MoveFolder ::
  "backend \<Rightarrow> string \<Rightarrow> string \<Rightarrow> error option \<times> request list" where
  "MoveFolder be folder newParentFolder =
     (let (parent, subfolder) = ParsePath folder;
          req = PatchFolderReq folder newParentFolder subfolder
      in ((case be req of
             Inl err \<Rightarrow> Some err
           | Inr res \<Rightarrow>
               if StatusCode res \<noteq> 200 then Some (ErrUnexpectedStatus (StatusCode res))
               else (case Decode_default res of
                       Inl err \<Rightarrow> Some err
                     | Inr response \<Rightarrow>
                         if \<not> Success response
                         then Some (MoveDirectoryFailed (StatusCode res) (Message response))
                         else None)),
          [req]))"

text \<open>
  Modelled from the spec: the four-argument \<open>MoveFolder(folder, newParentFolder, name)\<close>
  that \<open>FileSystem.Rename\<close> calls is not among the source files (files.go holds only the
  variant above, without the name argument). The spec describes it as "a move that updates
  both location and name in one request": one folder-patch request carrying the folder, the
  new parent and the new name, its status and body handled as in the variant above.
\<close>

definition MoveFolder_withName ::
  "backend \<Rightarrow> string \<Rightarrow> string \<Rightarrow> string \<Rightarrow> error option \<times> request list" where
  "MoveFolder_withName be folder newParentFolder newName =
     (let req = PatchFolderReq folder newParentFolder newName
      in ((case be req of
             Inl err \<Rightarrow> Some err
           | Inr res \<Rightarrow>
               if StatusCode res \<noteq> 200 then Some (ErrUnexpectedStatus (StatusCode res))
               else (case Decode_default res of
                       Inl err \<Rightarrow> Some err
                     | Inr response \<Rightarrow>
                         if \<not> Success response
                         then Some (MoveDirectoryFailed (StatusCode res) (Message response))
                         else None)),
          [req]))"

definition DownloadFile :: "backend \<Rightarrow> string \<Rightarrow> error option \<times> request list" where
  "DownloadFile be fileID =
     (let req = DownloadReq fileID
      in ((case be req of
             Inl err \<Rightarrow> Some err
           | Inr res \<Rightarrow>
               if StatusCode res \<noteq> 200 then Some (ErrUnexpectedStatus (StatusCode res))
               else None),
          [req]))"

section \<open>The filesystem adapter (FileSystem.Mkdir, FileSystem.Rename)\<close>


definition Rename :: "backend \<Rightarrow> string \<Rightarrow> string \<Rightarrow> error option exec \<times> request list" where
  "Rename be oldName newName =
     (case Find be oldName of
        (Panic, tr) \<Rightarrow> (Panic, tr)
      | (Return (folder, file, Some err), tr) \<Rightarrow> (Return (Some err), tr)
      | (Return (folder, file, None), tr) \<Rightarrow>
          (let (oldBase, oldLeaf) = ParsePath oldName;
               (base, name) = ParsePath newName
           in case folder of
                Some fo \<Rightarrow>
                  (let newParent = (if base \<noteq> oldBase then base else [])
                   in case MoveFolder_withName be (Folder_Path fo) newParent name of
                        (err, tr') \<Rightarrow> (Return err, tr @ tr'))
              | None \<Rightarrow>
                  (case file of
                     Some fi \<Rightarrow>
                       (case RenameFile be (File_ID fi) (path_Base newName) of
                          (err, tr') \<Rightarrow> (Return err, tr @ tr'))
                   | None \<Rightarrow> (Return None, tr))))"

section \<open>Random-access reads through the cache (CraneFile.ReadAt)\<close>

text \<open>
  The read cache is an external component. Its \<open>Get(key)\<close> returns a reader and, only
  when the key has no stream in the cache yet, a writer; that call creates the stream.
  The model keeps the keys that have a stream and, for each key, the error \<open>Get\<close> may
  report.
\<close>

record Cache =
  Cache_keys :: "string list"
  Cache_fault :: "string \<Rightarrow> error option"

text \<open>The result says whether a writer was returned.\<close>

definition cache_Get :: "Cache \<Rightarrow> string \<Rightarrow> (error + bool) \<times> Cache" where
  "cache_Get c key =
     (case Cache_fault c key of
        Some err \<Rightarrow> (Inl err, c)
      | None \<Rightarrow>
          if key \<in> set (Cache_keys c) then (Inr False, c)
          else (Inr True, c\<lparr>Cache_keys := key # Cache_keys c\<rparr>))"

text \<open>
  An open file of the adapter. A stream field holds the identifier the stream was opened
  for, or nothing while the field is nil.
\<close>

record CraneFile =
  cf_path :: string
  cf_name :: string
  cf_file :: "File option"
  cf_folder :: "Folder option"
  readStream :: "string option"
  readAtStream :: "string option"

definition CraneFile_ID :: "CraneFile \<Rightarrow> string" where
  "CraneFile_ID c = (case cf_file c of Some f \<Rightarrow> File_ID f | None \<Rightarrow> [])"

definition openReadStream ::
  "backend \<Rightarrow> CraneFile \<Rightarrow> (error option \<times> CraneFile) exec \<times> request list" where
  "openReadStream be c =
     (case cf_file c of
        None \<Rightarrow> (Panic, [])
      | Some f \<Rightarrow>
          (case DownloadFile be (File_ID f) of
             (Some err, tr) \<Rightarrow> (Return (Some err, c), tr)
           | (None, tr) \<Rightarrow> (Return (None, c\<lparr>readStream := Some (File_ID f)\<rparr>), tr)))"

text \<open>
  When \<open>Get\<close> returned a writer the download is opened and, on return, copied into the
  cache (a deferred call, so it runs before \<open>openReadAtStream\<close> returns); a failed copy
  is only logged.
\<close>

definition openReadAtStream ::
  "Cache option \<Rightarrow> backend \<Rightarrow> CraneFile \<Rightarrow>
   (error option \<times> CraneFile \<times> Cache option) exec \<times> request list" where
  "openReadAtStream readCache be c =
     (case readCache of
        None \<Rightarrow> (Return (Some ErrNotSupported, c, readCache), [])
      | Some cache \<Rightarrow>
          (case cache_Get cache (CraneFile_ID c) of
             (Inl err, cache') \<Rightarrow> (Return (Some err, c, Some cache'), [])
           | (Inr write, cache') \<Rightarrow>
               if write then
                 (case openReadStream be c of
                    (Panic, tr) \<Rightarrow> (Panic, tr)
                  | (Return (Some err, c'), tr) \<Rightarrow> (Return (Some err, c', Some cache'), tr)
                  | (Return (None, c'), tr) \<Rightarrow>
                      (Return (None, c'\<lparr>readAtStream := Some (CraneFile_ID c)\<rparr>, Some cache'), tr))
               else (Return (None, c\<lparr>readAtStream := Some (CraneFile_ID c)\<rparr>, Some cache'), [])))"

text \<open>
  \<open>ReadAt(p, off)\<close>: \<open>plen\<close> is the length of the buffer, \<open>streamReadAt\<close> what the
  cache stream answers to a read. The result carries the updated file and cache.
\<close>

definition ReadAt ::
  "Cache option \<Rightarrow> backend \<Rightarrow> (nat \<Rightarrow> int \<Rightarrow> int \<times> error option) \<Rightarrow> CraneFile \<Rightarrow> nat \<Rightarrow> int \<Rightarrow>
   ((int \<times> error option) \<times> CraneFile \<times> Cache option) exec \<times> request list" where
  "ReadAt readCache be streamReadAt c plen off =
     (if readCache = None then (Return ((- 1, Some ErrNotSupported), c, readCache), [])
      else
        (case (if readAtStream c = None then openReadAtStream readCache be c
               else (Return (None, c, readCache), [])) of
           (Panic, tr) \<Rightarrow> (Panic, tr)
         | (Return (Some err, c', cache'), tr) \<Rightarrow> (Return ((- 1, Some err), c', cache'), tr)
         | (Return (None, c', cache'), tr) \<Rightarrow>
             (case cf_file c' of
                None \<Rightarrow> (Panic, tr)
              | Some f \<Rightarrow>
                  if off \<ge> File_Size f then (Return ((0, Some EOF), c', cache'), tr)
                  else (Return (streamReadAt plen off, c', cache'), tr))))"

text \<open>A sequence of \<open>ReadAt\<close> calls on files sharing the cache; a panic ends it.\<close>

fun ReadAt_all ::
  "Cache option \<Rightarrow> backend \<Rightarrow> (nat \<Rightarrow> int \<Rightarrow> int \<times> error option) \<Rightarrow>
   (CraneFile \<times> nat \<times> int) list \<Rightarrow> request list" where
  "ReadAt_all readCache be streamReadAt [] = []"
| "ReadAt_all readCache be streamReadAt ((c, plen, off) # ops) =
     (case ReadAt readCache be streamReadAt c plen off of
        (Panic, tr) \<Rightarrow> tr
      | (Return (r, c', cache'), tr) \<Rightarrow> tr @ ReadAt_all cache' be streamReadAt ops)"

definition sample_handle :: CraneFile where
  "sample_handle =
     \<lparr>cf_path = ''/A'', cf_name = ''x.txt'',
      cf_file = Some (sample_file ''f1'' ''x.txt'' ''/A''), cf_folder = None,
      readStream = None, readAtStream = None\<rparr>"

definition empty_cache :: Cache where
  "empty_cache = \<lparr>Cache_keys = [], Cache_fault = (\<lambda>k. None)\<rparr>"

definition no_data :: "nat \<Rightarrow> int \<Rightarrow> int \<times> error option" where
  "no_data plen off = (0, None)"


section \<open>The auth manager (auth.go)\<close>

text \<open>
  Instants are nanoseconds on one clock; \<open>a.Before(b)\<close> is \<open>a < b\<close>. The grace period
  is \<open>5 * time.Minute\<close>.
\<close>

definition grace :: int where
  "grace = 5 * 60 * 1000000000"

text \<open>
  The pluggable store is an interface with \<open>Get\<close> and \<open>Set\<close>. It is modelled by what
  \<open>Get\<close> answers for each user name (a credential or nil, and an error or nil); \<open>Set\<close>
  makes \<open>Get\<close> answer with the credential set.
\<close>

type_synonym Store = "string \<Rightarrow> AuthResponse option \<times> error option"

definition store_Set :: "Store \<Rightarrow> string \<Rightarrow> AuthResponse \<Rightarrow> Store" where
  "store_Set st username auth = st(username := (Some auth, None))"

definition empty_store :: Store where
  "empty_store = (\<lambda>username. (None, None))"

record authManager =
  lastResponse :: "AuthResponse option"
  store :: "Store option"

definition NewAuthManager :: "Store option \<Rightarrow> authManager" where
  "NewAuthManager st = \<lparr>lastResponse = None, store = st\<rparr>"

definition defaultUsername :: string where
  "defaultUsername = ''default''"

text \<open>\<open>ctx.Value("username")\<close>: absent, a string, or a value of another type.\<close>

datatype ctx_value = NoValue | StringValue string | OtherValue

definition Authenticate ::
  "authManager \<Rightarrow> backend \<Rightarrow> string \<Rightarrow> string \<Rightarrow> string \<Rightarrow> authManager \<times> error option" where
  "Authenticate am http username password twoFactorCode =
     (case http (AuthenticateReq username password twoFactorCode) of
        Inl err \<Rightarrow> (am, Some err)
      | Inr res \<Rightarrow>
          if StatusCode res \<noteq> 200 then (am, Some (UnexpectedStatusCode (StatusCode res)))
          else (case Decode_auth res of
                  Inl err \<Rightarrow> (am, Some (Wrapped ''failed to decode authenteication response'' err))
                | Inr response \<Rightarrow>
                    (case store am of
                       Some st \<Rightarrow> (am\<lparr>store := Some (store_Set st username response)\<rparr>, None)
                     | None \<Rightarrow> (am\<lparr>lastResponse := Some response\<rparr>, None))))"

text \<open>
  The method \<open>RefreshToken\<close> of the manager (the plain name is the field of the
  credential). It reads \<open>am.lastResponse.RefreshToken\<close> to build the request; with a nil
  \<open>lastResponse\<close> that read panics before any request is made.
\<close>

definition authManager_RefreshToken ::
  "authManager \<Rightarrow> backend \<Rightarrow> (authManager \<times> error option) exec" where
  "authManager_RefreshToken am http =
     (case lastResponse am of
        None \<Rightarrow> Panic
      | Some lr \<Rightarrow>
          (case http (RefreshReq (RefreshToken lr)) of
             Inl err \<Rightarrow> Return (am, Some err)
           | Inr res \<Rightarrow>
               if StatusCode res \<noteq> 200 then Return (am, Some (UnexpectedStatusCode (StatusCode res)))
               else (case Decode_auth res of
                       Inl err \<Rightarrow> Return (am, Some (Wrapped ''failed to decode refresh response'' err))
                     | Inr response \<Rightarrow>
                         (case store am of
                            Some st \<Rightarrow>
                              Return (am\<lparr>store := Some (store_Set st (Username response) response)\<rparr>, None)
                          | None \<Rightarrow> Return (am\<lparr>lastResponse := Some response\<rparr>, None)))))"

text \<open>
  \<open>GetToken\<close>: \<open>now1\<close> and \<open>now2\<close> are the two readings of \<open>time.Now()\<close>. The local
  \<open>response\<close> is the credential read at the start (from the manager or from the store);
  the token returned at the end is read from it.
\<close>

definition GetToken ::
  "authManager \<Rightarrow> backend \<Rightarrow> ctx_value \<Rightarrow> int \<Rightarrow> int \<Rightarrow> (authManager \<times> string \<times> error option) exec" where
  "GetToken am http username now1 now2 =
     (case (case store am of
              None \<Rightarrow> Inr (lastResponse am)
            | Some st \<Rightarrow>
                (case username of
                   OtherValue \<Rightarrow> Inl ErrUnexpectedType
                 | NoValue \<Rightarrow>
                     (case st defaultUsername of
                        (r, Some err) \<Rightarrow> Inl err
                      | (r, None) \<Rightarrow> Inr r)
                 | StringValue usernameStr \<Rightarrow>
                     (case st usernameStr of
                        (r, Some err) \<Rightarrow> Inl err
                      | (r, None) \<Rightarrow> Inr r))) of
        Inl err \<Rightarrow> Return (am, [], Some err)
      | Inr None \<Rightarrow> Return (am, [], Some ErrNoToken)
      | Inr (Some response) \<Rightarrow>
          if Token response = [] then Return (am, [], Some ErrNoToken)
          else if RefreshTokenExpiration response < now1
          then Return (am, [], Some ErrExpiredRefreshToken)
          else if TokenExpiration response < now2 + grace then
            (case authManager_RefreshToken am http of
               Panic \<Rightarrow> Panic
             | Return (am', Some err) \<Rightarrow> Return (am', [], Some (Wrapped ''failed to refresh token'' err))
             | Return (am', None) \<Rightarrow> Return (am', Token response, None))
          else Return (am, Token response, None))"

text \<open>Sample credentials and an auth backend that accepts every request.\<close>

definition old_credential :: AuthResponse where
  "old_credential =
     \<lparr>Username = ''default'', Token = ''old'', TokenExpiration = 60 * 1000000000,
      RefreshToken = ''r1'', RefreshTokenExpiration = 86400 * 1000000000\<rparr>"

definition new_credential :: AuthResponse where
  "new_credential =
     \<lparr>Username = ''default'', Token = ''new'', TokenExpiration = 3600 * 1000000000,
      RefreshToken = ''r2'', RefreshTokenExpiration = 172800 * 1000000000\<rparr>"

definition auth_ok :: "AuthResponse \<Rightarrow> Response" where
  "auth_ok a =
     \<lparr>StatusCode = 200, Data = [],
      Decode_default = Inr \<lparr>Success = True, Message = []\<rparr>,
      Decode_folder = Inl (External ''not a folder''),
      Decode_file = Inl (External ''not a file''),
      Decode_auth = Inr a\<rparr>"

definition sample_auth :: backend where
  "sample_auth r =
     (case r of
        AuthenticateReq u p c \<Rightarrow> Inr (auth_ok old_credential)
      | RefreshReq t \<Rightarrow> Inr (auth_ok new_credential)
      | _ \<Rightarrow> Inl (External ''not an auth endpoint''))"

section \<open>Chunked upload (files.go)\<close>

definition maxChunkSize :: int where
  "maxChunkSize = 15 * 1024 * 1024"

definition defaultFileType :: string where
  "defaultFileType = ''application/octet-stream''"

definition contextFileStorage :: string where
  "contextFileStorage = ''file-storage''"

subsection \<open>\<open>strconv.Itoa\<close> and \<open>strconv.FormatInt(_, 10)\<close>\<close>

definition digit_char :: "nat \<Rightarrow> char" where
  "digit_char d = ''0123456789'' ! d"

fun digits :: "nat \<Rightarrow> string" where
  "digits n = (if n < 10 then [digit_char n] else digits (n div 10) @ [digit_char (n mod 10)])"

declare digits.simps [simp del]

definition Itoa :: "int \<Rightarrow> string" where
  "Itoa i = (if i < 0 then CHR ''-'' # digits (nat (- i)) else digits (nat i))"

subsection \<open>The float64 arithmetic of the chunk count\<close>

text \<open>
  The chunk count is \<open>int(math.Ceil(float64(fileSize) / maxChunkSize))\<close>. The float64
  values that occur are written exactly, as a pair \<open>(m, e)\<close> standing for \<open>m / 2 ^ e\<close>.
  Conversion and division round to the nearest value with a 53-bit significand, ties to
  the even significand; no value here leaves the normal range.
\<close>

text \<open>\<open>a / b\<close> rounded to the nearest integer, ties to even (\<open>b\<close> positive).\<close>

definition round_half_even :: "int \<Rightarrow> int \<Rightarrow> int" where
  "round_half_even a b =
     (let q = a div b; r = a mod b
      in if 2 * r > b \<or> (2 * r = b \<and> odd q) then q + 1 else q)"

text \<open>The number of halvings that bring \<open>a\<close> below \<open>t\<close>.\<close>

function scale_down :: "int \<Rightarrow> int \<Rightarrow> nat" where
  "scale_down a t = (if 0 < t \<and> t \<le> a then Suc (scale_down a (2 * t)) else 0)"
  by pat_completeness auto
termination
  by (relation "measure (\<lambda>(a, t). nat (a + 1 - t))") auto

declare scale_down.simps [simp del]

text \<open>The number of doublings that bring \<open>a\<close> up to \<open>t\<close>.\<close>

function scale_up :: "int \<Rightarrow> int \<Rightarrow> nat" where
  "scale_up a t = (if 0 < a \<and> a < t then Suc (scale_up (2 * a) t) else 0)"
  by pat_completeness auto
termination
  by (relation "measure (\<lambda>(a, t). nat (t - a))") auto

declare scale_up.simps [simp del]

text \<open>\<open>float64(n)\<close> for an integer \<open>n\<close>: exact below \<open>2 ^ 53\<close>; the value is an integer.\<close>

definition float64_of_int :: "int \<Rightarrow> int" where
  "float64_of_int n =
     (let k = scale_down \<bar>n\<bar> (2 ^ 53)
      in round_half_even n (2 ^ k) * 2 ^ k)"

text \<open>
  \<open>x / y\<close> for integer-valued \<open>x\<close> and positive integer-valued \<open>y\<close>: the quotient is
  scaled by a power of two so that its significand lies in \<open>[2 ^ 52, 2 ^ 53)\<close>, and the
  significand is rounded.
\<close>

definition float64_div :: "int \<Rightarrow> int \<Rightarrow> int \<times> nat" where
  "float64_div x y =
     (if x = 0 then (0, 0)
      else if \<bar>x\<bar> < 2 ^ 52 * y then
        (let p = scale_up \<bar>x\<bar> (2 ^ 52 * y)
         in (round_half_even (x * 2 ^ p) y, p))
      else
        (let k = scale_down \<bar>x\<bar> (2 ^ 53 * y)
         in (round_half_even x (y * 2 ^ k) * 2 ^ k, 0)))"

text \<open>\<open>int(math.Ceil(v))\<close> for \<open>v = m / 2 ^ e\<close>.\<close>

definition float64_Ceil :: "int \<times> nat \<Rightarrow> int" where
  "float64_Ceil v = (case v of (m, e) \<Rightarrow> - ((- m) div 2 ^ e))"

definition totalChunks_of :: "int \<Rightarrow> int" where
  "totalChunks_of fileSize =
     float64_Ceil (float64_div (float64_of_int fileSize) (float64_of_int maxChunkSize))"

subsection \<open>The reader and \<open>io.CopyN\<close>\<close>

text \<open>
  The input stream, by the number of bytes it still holds and the error it reports once
  they are used up (none: \<open>io.EOF\<close>). The bytes themselves play no part in the protocol.
\<close>

record Reader =
  available :: nat
  failure :: "error option"

text \<open>
  \<open>io.CopyN(dst, src, n)\<close> into an in-memory buffer: the number of bytes copied, and an
  error when the source ends before \<open>n\<close> bytes.
\<close>

definition CopyN :: "Reader \<Rightarrow> int \<Rightarrow> (nat \<times> error option) \<times> Reader" where
  "CopyN src n =
     (if n \<le> 0 then ((0, None), src)
      else if nat n \<le> available src
      then ((nat n, None), src\<lparr>available := available src - nat n\<rparr>)
      else ((available src, Some (case failure src of None \<Rightarrow> EOF | Some err \<Rightarrow> err)),
            src\<lparr>available := 0\<rparr>))"

subsection \<open>client.uploadChunk and client.ChunkedUpload\<close>

text \<open>
  \<open>uploadChunk\<close> writes the fields and the chunk into an in-memory multipart body (these
  writes do not fail) and passes it to \<open>doRequest\<close>. A copy error other than \<open>io.EOF\<close>
  aborts before the request. The request records the fields, the file name and the number
  of bytes copied.
\<close>

definition uploadChunk ::
  "backend \<Rightarrow> Reader \<Rightarrow> string \<Rightarrow> int \<Rightarrow> int \<Rightarrow> (string \<times> string) list \<Rightarrow>
   ((error + Response) \<times> Reader) \<times> request list" where
  "uploadChunk be reader fileName fileSize chunkSize fieldMap =
     (case CopyN reader chunkSize of
        ((n, err), reader') \<Rightarrow>
          if err \<noteq> None \<and> err \<noteq> Some EOF
          then ((Inl (Wrapped ''failed to copy chunk data'' (the err)), reader'), [])
          else
            (let req = UploadReq fieldMap fileName n
             in (((case be req of
                     Inl e \<Rightarrow> Inl (Wrapped ''failed to upload file'' e)
                   | Inr resp \<Rightarrow> Inr resp), reader'),
                 [req])))"

text \<open>
  The chunk loop of \<open>ChunkedUpload\<close>, from the current chunk number on. The result is Go's
  pair (file, error), each possibly nil, with the requests issued.
\<close>

function uploadLoop ::
  "backend \<Rightarrow> Reader \<Rightarrow> string \<Rightarrow> int \<Rightarrow> int \<Rightarrow> (string \<times> string) list \<Rightarrow> int \<Rightarrow> int \<Rightarrow>
   (File option \<times> error option) \<times> request list" where
  "uploadLoop be reader fileName fileSize totalChunks fieldMap chunk remaining =
     (if chunk \<le> totalChunks then
        (let chunkSize = (if remaining < maxChunkSize then remaining else maxChunkSize);
             fields1 = AList.update ''resumableChunkNumber'' (Itoa chunk) fieldMap;
             fields2 = AList.update ''resumableCurrentChunkSize'' (Itoa chunkSize) fields1;
             sent = uploadChunk be reader fileName fileSize chunkSize fields2
         in case fst (fst sent) of
              Inl err \<Rightarrow> ((None, Some (Wrapped ''chunk upload failed, error'' err)), snd sent)
            | Inr res \<Rightarrow>
                if StatusCode res \<noteq> 200 then
                  (case Decode_default res of
                     Inl err \<Rightarrow>
                       ((None, Some (ChunkFailedResponse chunk (StatusCode res) (Data res))), snd sent)
                   | Inr status \<Rightarrow>
                       ((None, Some (ChunkFailedMessage chunk (StatusCode res) (Message status))), snd sent))
                else if chunk = totalChunks then
                  (case Decode_file res of
                     Inl err \<Rightarrow> ((None, Some err), snd sent)
                   | Inr file \<Rightarrow> ((Some file, None), snd sent))
                else
                  (let rest = uploadLoop be (snd (fst sent)) fileName fileSize totalChunks fields2
                                (chunk + 1) (remaining - chunkSize)
                   in (fst rest, snd sent @ snd rest)))
      else ((None, Some NoResponseFromEndpoint), []))"
  by pat_completeness auto
termination
  by (relation "measure (\<lambda>(be, reader, fileName, fileSize, totalChunks, fieldMap, chunk, remaining).
                  nat (totalChunks + 1 - chunk))") auto

declare uploadLoop.simps [simp del]

text \<open>
  \<open>ChunkedUpload\<close>: \<open>marshal\<close> is \<open>json.Marshal\<close> of the folder request for the base
  path, \<open>newUUID\<close> the outcome of \<open>uuid.NewV7()\<close>.
\<close>

definition ChunkedUpload ::
  "backend \<Rightarrow> (string \<Rightarrow> error + string) \<Rightarrow> (error + string) \<Rightarrow> Reader \<Rightarrow> string \<Rightarrow> int \<Rightarrow>
   (File option \<times> error option) \<times> request list" where
  "ChunkedUpload be marshal newUUID reader filePath fileSize =
     (let fileName = path_Base filePath;
          dir = path_Dir filePath;
          basePath = (if dir = [] \<or> hd dir \<noteq> slash then ''/'' @ dir else dir)
      in case marshal basePath of
           Inl err \<Rightarrow> ((None, Some err), [])
         | Inr contextData \<Rightarrow>
             (let totalChunks = totalChunks_of fileSize;
                  remaining = fileSize
              in case newUUID of
                   Inl err \<Rightarrow> ((None, Some err), [])
                 | Inr ident \<Rightarrow>
                     (let fieldMap =
                        [(''resumableChunkSize'', Itoa maxChunkSize),
                         (''resumableTotalSize'', Itoa fileSize),
                         (''resumableIdentifier'', ident),
                         (''resumableType'', defaultFileType),
                         (''resumableFilename'', fileName),
                         (''resumableRelativePath'', fileName),
                         (''resumableTotalChunks'', Itoa totalChunks),
                         (''context'', contextFileStorage),
                         (''contextData'', contextData)]
                      in uploadLoop be reader fileName fileSize totalChunks fieldMap 1 remaining)))"

text \<open>A reader of the given size and an upload backend that accepts every chunk.\<close>

definition reader_of :: "nat \<Rightarrow> Reader" where
  "reader_of n = \<lparr>available = n, failure = None\<rparr>"

definition uploaded_file :: File where
  "uploaded_file =
     \<lparr>File_ID = ''f9'', File_Name = ''big.bin'', File_Type = ''application/octet-stream'',
      File_Size = 20971520, File_DateAdded = 0, File_FolderPath = ''/A''\<rparr>"

definition upload_ok :: Response where
  "upload_ok =
     \<lparr>StatusCode = 200, Data = [],
      Decode_default = Inr \<lparr>Success = True, Message = []\<rparr>,
      Decode_folder = Inl (External ''not a folder''),
      Decode_file = Inr uploaded_file,
      Decode_auth = Inl (External ''not a credential'')\<rparr>"

definition upload_backend :: backend where
  "upload_backend r = Inr upload_ok"

definition sample_marshal :: "string \<Rightarrow> error + string" where
  "sample_marshal basePath = Inr (''{folder:'' @ basePath @ ''}'')"

text \<open>Reading a multipart field and the payload size of an upload request.\<close>

definition request_field :: "request \<Rightarrow> string \<Rightarrow> string option" where
  "request_field r key = (case r of UploadReq fieldMap fileName n \<Rightarrow> map_of fieldMap key | _ \<Rightarrow> None)"

definition request_bytes :: "request \<Rightarrow> nat" where
  "request_bytes r = (case r of UploadReq fieldMap fileName n \<Rightarrow> n | _ \<Rightarrow> 0)"

text \<open>Reading a decimal numeral back, to tell chunk numbers apart.\<close>

definition digit_value :: "char \<Rightarrow> nat" where
  "digit_value ch = of_char ch - 48"

definition digits_value :: "string \<Rightarrow> nat" where
  "digits_value s = foldl (\<lambda>a ch. 10 * a + digit_value ch) 0 s"

section \<open>Properties of the string helpers\<close>

lemma strings_Split_nonempty: "strings_Split c s \<noteq> []"
  by (induction s) (auto simp: Let_def)

lemma strings_Split_free: "c \<notin> set s \<Longrightarrow> strings_Split c s = [s]"
  by (induction s) (auto simp: Let_def)

lemma strings_Split_append:
  "c \<notin> set s \<Longrightarrow> strings_Split c (s @ c # t) = s # strings_Split c t"
  by (induction s) (auto simp: Let_def)

lemma strings_Split_Join:
  "segs \<noteq> [] \<Longrightarrow> \<forall>s \<in> set segs. c \<notin> set s \<Longrightarrow>
   strings_Split c (strings_Join [c] segs) = segs"
proof (induction segs)
  case Nil
  then show ?case by simp
next
  case (Cons x xs)
  show ?case
  proof (cases xs)
    case Nil
    with Cons.prems show ?thesis by (simp add: strings_Split_free)
  next
    case (Cons y ys)
    with Cons.IH Cons.prems show ?thesis by (simp add: strings_Split_append)
  qed
qed

lemma strings_Join_Split: "strings_Join [c] (strings_Split c s) = s"
proof (induction s)
  case Nil
  then show ?case by simp
next
  case (Cons x xs)
  obtain y ys where r: "strings_Split c xs = y # ys"
    using strings_Split_nonempty[of c xs] by (cases "strings_Split c xs") auto
  with Cons show ?case
    by (cases ys) (auto simp: Let_def)
qed


lemma dropWhile_hd: "s = [] \<or> hd s \<noteq> c \<Longrightarrow> dropWhile (\<lambda>x. x = c) s = s"
  by (cases s) auto

lemma dropWhile_replicate_append:
  "s = [] \<or> hd s \<noteq> c \<Longrightarrow> dropWhile (\<lambda>x. x = c) (replicate a c @ s) = s"
proof (induction a)
  case 0
  then show ?case by (simp add: dropWhile_hd)
next
  case (Suc a)
  then show ?case by simp
qed

lemma dropWhile_replicate_all: "dropWhile (\<lambda>x. x = c) (replicate n c) = []"
  by (induction n) simp_all

lemma strings_Trim_wrap:
  assumes "s = [] \<or> (hd s \<noteq> c \<and> last s \<noteq> c)"
  shows "strings_Trim c (replicate a c @ s @ replicate b c) = s"
proof (cases "s = []")
  case True
  have "replicate a c @ replicate b c = replicate (a + b) c"
    by (simp only: replicate_add)
  then have "strings_Trim c (replicate a c @ [] @ replicate b c) = []"
    unfolding strings_Trim_def by (simp only: append_Nil dropWhile_replicate_all rev.simps dropWhile.simps)
  with True show ?thesis by simp
next
  case False
  with assms have h: "hd s \<noteq> c" and l: "last s \<noteq> c" by auto
  have "hd (s @ replicate b c) \<noteq> c" using False h by simp
  then have 1: "dropWhile (\<lambda>x. x = c) (replicate a c @ (s @ replicate b c)) = s @ replicate b c"
    by (intro dropWhile_replicate_append disjI2)
  have "hd (rev s) \<noteq> c" using False l by (simp add: hd_rev)
  then have 2: "dropWhile (\<lambda>x. x = c) (replicate b c @ rev s) = rev s"
    by (intro dropWhile_replicate_append disjI2)
  have "strings_Trim c (replicate a c @ s @ replicate b c)
        = rev (dropWhile (\<lambda>x. x = c) (rev (s @ replicate b c)))"
    unfolding strings_Trim_def by (simp only: 1)
  also have "rev (s @ replicate b c) = replicate b c @ rev s"
    by simp
  also have "rev (dropWhile (\<lambda>x. x = c) (replicate b c @ rev s)) = s"
    by (simp only: 2 rev_rev_ident)
  finally show ?thesis .
qed

lemma strings_Join_hd:
  assumes "segs \<noteq> []" "hd segs \<noteq> []"
  shows "strings_Join sep segs \<noteq> [] \<and> hd (strings_Join sep segs) = hd (hd segs)"
proof -
  obtain x xs where segs: "segs = x # xs" using assms(1) by (cases segs) auto
  with assms(2) have x: "x \<noteq> []" by simp
  show ?thesis
  proof (cases xs)
    case Nil
    with segs x show ?thesis by simp
  next
    case (Cons y ys)
    with segs x show ?thesis by simp
  qed
qed

lemma strings_Join_nonempty_last:
  "segs \<noteq> [] \<Longrightarrow> last segs \<noteq> [] \<Longrightarrow> strings_Join sep segs \<noteq> []"
proof (induction segs)
  case Nil
  then show ?case by simp
next
  case (Cons x xs)
  then show ?case by (cases xs) auto
qed

lemma strings_Join_last:
  "segs \<noteq> [] \<Longrightarrow> last segs \<noteq> [] \<Longrightarrow> last (strings_Join sep segs) = last (last segs)"
proof (induction segs)
  case Nil
  then show ?case by simp
next
  case (Cons x xs)
  show ?case
  proof (cases xs)
    case Nil
    then show ?thesis by simp
  next
    case (Cons y ys)
    with Cons.IH Cons.prems have "last (strings_Join sep xs) = last (last xs)" by simp
    moreover have "strings_Join sep xs \<noteq> []"
      using Cons.prems Cons strings_Join_nonempty_last[of xs sep] by simp
    ultimately show ?thesis using Cons by simp
  qed
qed

lemma ParsePath_segments:
  assumes "length segs > 1" "\<forall>s \<in> set segs. slash \<notin> set s" "hd segs \<noteq> []" "last segs \<noteq> []"
  shows "ParsePath (replicate a slash @ strings_Join ''/'' segs @ replicate b slash)
         = (''/'' @ strings_Join ''/'' (butlast segs), last segs)"
proof -
  from assms(1) have ne: "segs \<noteq> []" by auto
  let ?j = "strings_Join ''/'' segs"
  have j: "?j \<noteq> []" "hd ?j = hd (hd segs)" "last ?j = last (last segs)"
    using strings_Join_hd[OF ne assms(3)] strings_Join_last[OF ne assms(4)] by auto
  have "hd segs \<in> set segs" "last segs \<in> set segs" using ne by auto
  with assms(2) have "slash \<notin> set (hd segs)" "slash \<notin> set (last segs)" by auto
  with assms(3,4) have "hd (hd segs) \<noteq> slash" "last (last segs) \<noteq> slash"
    by (metis hd_in_set, metis last_in_set)
  with j have "strings_Trim slash (replicate a slash @ ?j @ replicate b slash) = ?j"
    by (intro strings_Trim_wrap) simp
  moreover have "strings_Split slash ?j = segs"
    using strings_Split_Join[OF ne assms(2)] by simp
  ultimately show ?thesis using assms(1)
    by (simp add: ParsePath_def)
qed

lemma ParsePath_single:
  assumes "slash \<notin> set s"
  shows "ParsePath (replicate a slash @ s @ replicate b slash) = (''/'', s)"
proof -
  have "s = [] \<or> (hd s \<noteq> slash \<and> last s \<noteq> slash)"
    using assms by (metis hd_in_set last_in_set)
  then have "strings_Trim slash (replicate a slash @ s @ replicate b slash) = s"
    by (rule strings_Trim_wrap)
  then show ?thesis using assms
    by (simp add: ParsePath_def strings_Split_free)
qed

section \<open>ParsePath: parent path and leaf name\<close>

text \<open>
  Claim C7. \<open>ParsePath\<close> trims leading and trailing separators and splits on the
  separator. Written on the input: for any number of leading and trailing separators,
  (1) an input whose trimmed part consists of more than one segment (segments free of
  separators, the first and the last one non-empty) gives the parent \<open>/\<close> followed by
  all segments but the last joined by \<open>/\<close>, and the last segment as leaf;
  (2) an input whose trimmed part is a single non-empty segment gives parent \<open>/\<close> and
  that segment;
  (3) an input that is empty after trimming gives parent \<open>/\<close> and the empty leaf;
  and the three examples of the test file evaluate as stated.
\<close>

theorem ParsePath_contract:
  "(length segs > 1 \<and> (\<forall>s \<in> set segs. slash \<notin> set s) \<and> hd segs \<noteq> [] \<and> last segs \<noteq> []
      \<longrightarrow> ParsePath (replicate a slash @ strings_Join ''/'' segs @ replicate b slash)
          = (''/'' @ strings_Join ''/'' (butlast segs), last segs))
   \<and> (slash \<notin> set s \<and> s \<noteq> []
      \<longrightarrow> ParsePath (replicate a slash @ s @ replicate b slash) = (''/'', s))
   \<and> ParsePath (replicate a slash) = (''/'', [])
   \<and> ParsePath ''/some/full/path'' = (''/some/full'', ''path'')
   \<and> ParsePath ''/some/full/path/'' = (''/some/full'', ''path'')
   \<and> ParsePath ''/something'' = (''/'', ''something'')"
proof (intro conjI impI)
  assume "length segs > 1 \<and> (\<forall>s \<in> set segs. slash \<notin> set s) \<and> hd segs \<noteq> [] \<and> last segs \<noteq> []"
  then show "ParsePath (replicate a slash @ strings_Join ''/'' segs @ replicate b slash)
          = (''/'' @ strings_Join ''/'' (butlast segs), last segs)"
    using ParsePath_segments by blast
next
  assume "slash \<notin> set s \<and> s \<noteq> []"
  then show "ParsePath (replicate a slash @ s @ replicate b slash) = (''/'', s)"
    using ParsePath_single by blast
next
  show "ParsePath (replicate a slash) = (''/'', [])"
    using ParsePath_single[of "[]" a 0] by simp
next
  show "ParsePath ''/some/full/path'' = (''/some/full'', ''path'')"
    by (simp add: ParsePath_def strings_Trim_def Let_def)
next
  show "ParsePath ''/some/full/path/'' = (''/some/full'', ''path'')"
    by (simp add: ParsePath_def strings_Trim_def Let_def)
next
  show "ParsePath ''/something'' = (''/'', ''something'')"
    by (simp add: ParsePath_def strings_Trim_def Let_def)
qed

theorem ParsePath_contract_witness:
  "ParsePath (replicate 2 slash @ strings_Join ''/'' [''a'', [], ''b'', ''c''] @ replicate 3 slash)
     = (''/a//b'', ''c'')
   \<and> ParsePath (replicate 1 slash @ ''leaf'' @ replicate 2 slash) = (''/'', ''leaf'')"
  using ParsePath_contract[of "[''a'', [], ''b'', ''c'']" 2 3 "''leaf''"]
    ParsePath_contract[of "[''a'', [], ''b'', ''c'']" 1 2 "''leaf''"]
  by simp

section \<open>Find: files before folders\<close>

lemma Flatten_hd: "Flatten f = f # concat (map Flatten (Subfolders f))"
  by (cases f) simp

lemma GetFolders_nonempty: "GetFolders be = Inr folders \<Longrightarrow> folders \<noteq> []"
  by (auto simp: GetFolders_def Flatten_hd split: sum.splits if_splits)

lemma Find_parent_no_panic: "fst (Find_parent be base) \<noteq> Panic"
  by (auto simp: Find_parent_def dest: GetFolders_nonempty split: sum.splits list.splits)

lemma ParsePath_root_leaf:
  assumes "ParsePath p = (base, name)" "name \<noteq> []"
  shows "\<not> ((base = [] \<or> base = ''/'') \<and> name = [])"
  using assms by simp

text \<open>
  Claim C3. Let the path have a non-empty leaf name and let the parent lookup of
  \<open>Find\<close> give a folder. If some file of that folder carries the leaf name, \<open>Find\<close>
  returns the first such file and no folder, whether or not a subfolder carries the name
  too (the file wins). If no file does but some subfolder does, it returns the first such
  subfolder and no file. If neither list has the name it fails with \<open>ErrNoFile\<close>. On
  success exactly one of folder and file is non-nil.
\<close>

theorem Find_files_before_folders:
  assumes "ParsePath p = (base, name)" and "name \<noteq> []"
      and "Find_parent be base = (Return (Inr folder), tr)"
  shows "((\<exists>f \<in> set (Files folder). File_Name f = name) \<longrightarrow>
           (\<exists>i < length (Files folder).
               File_Name (Files folder ! i) = name
             \<and> (\<forall>j < i. File_Name (Files folder ! j) \<noteq> name)
             \<and> Find be p = (Return (None, Some (Files folder ! i), None), tr)))
       \<and> ((\<forall>f \<in> set (Files folder). File_Name f \<noteq> name)
           \<and> (\<exists>d \<in> set (Subfolders folder). Folder_Name d = name) \<longrightarrow>
           (\<exists>i < length (Subfolders folder).
               Folder_Name (Subfolders folder ! i) = name
             \<and> (\<forall>j < i. Folder_Name (Subfolders folder ! j) \<noteq> name)
             \<and> Find be p = (Return (Some (Subfolders folder ! i), None, None), tr)))
       \<and> ((\<forall>f \<in> set (Files folder). File_Name f \<noteq> name)
           \<and> (\<forall>d \<in> set (Subfolders folder). Folder_Name d \<noteq> name) \<longrightarrow>
           Find be p = (Return (None, None, Some ErrNoFile), tr))
       \<and> (\<forall>fo fi. fst (Find be p) = Return (fo, fi, None) \<longrightarrow> (fo = None) \<noteq> (fi = None))"
proof -
  let ?ff = "find (\<lambda>file. File_Name file = name) (Files folder)"
  let ?fd = "find (\<lambda>folder. Folder_Name folder = name) (Subfolders folder)"
  have F: "Find be p =
     (case ?ff of
        Some file \<Rightarrow> (Return (None, Some file, None), tr)
      | None \<Rightarrow> (case ?fd of
                   Some d \<Rightarrow> (Return (Some d, None, None), tr)
                 | None \<Rightarrow> (Return (None, None, Some ErrNoFile), tr)))"
    using assms by (simp add: Find_def)
  have 1: "(\<exists>f \<in> set (Files folder). File_Name f = name) \<longrightarrow>
           (\<exists>i < length (Files folder).
               File_Name (Files folder ! i) = name
             \<and> (\<forall>j < i. File_Name (Files folder ! j) \<noteq> name)
             \<and> Find be p = (Return (None, Some (Files folder ! i), None), tr))"
  proof
    assume "\<exists>f \<in> set (Files folder). File_Name f = name"
    then have "?ff \<noteq> None" by (auto simp: find_None_iff)
    then obtain fl where ff: "?ff = Some fl" by auto
    then obtain i where "i < length (Files folder)" "File_Name (Files folder ! i) = name"
        "fl = Files folder ! i" "\<forall>j < i. File_Name (Files folder ! j) \<noteq> name"
      unfolding find_Some_iff by blast
    with F ff show "\<exists>i < length (Files folder).
               File_Name (Files folder ! i) = name
             \<and> (\<forall>j < i. File_Name (Files folder ! j) \<noteq> name)
             \<and> Find be p = (Return (None, Some (Files folder ! i), None), tr)"
      by auto
  qed
  have 2: "(\<forall>f \<in> set (Files folder). File_Name f \<noteq> name)
           \<and> (\<exists>d \<in> set (Subfolders folder). Folder_Name d = name) \<longrightarrow>
           (\<exists>i < length (Subfolders folder).
               Folder_Name (Subfolders folder ! i) = name
             \<and> (\<forall>j < i. Folder_Name (Subfolders folder ! j) \<noteq> name)
             \<and> Find be p = (Return (Some (Subfolders folder ! i), None, None), tr))"
  proof
    assume a: "(\<forall>f \<in> set (Files folder). File_Name f \<noteq> name)
           \<and> (\<exists>d \<in> set (Subfolders folder). Folder_Name d = name)"
    then have ff: "?ff = None" by (auto simp: find_None_iff)
    from a have "?fd \<noteq> None" by (auto simp: find_None_iff)
    then obtain d where fd: "?fd = Some d" by auto
    then obtain i where "i < length (Subfolders folder)" "Folder_Name (Subfolders folder ! i) = name"
        "d = Subfolders folder ! i" "\<forall>j < i. Folder_Name (Subfolders folder ! j) \<noteq> name"
      unfolding find_Some_iff by blast
    with F ff fd show "\<exists>i < length (Subfolders folder).
               Folder_Name (Subfolders folder ! i) = name
             \<and> (\<forall>j < i. Folder_Name (Subfolders folder ! j) \<noteq> name)
             \<and> Find be p = (Return (Some (Subfolders folder ! i), None, None), tr)"
      by auto
  qed
  have 3: "(\<forall>f \<in> set (Files folder). File_Name f \<noteq> name)
           \<and> (\<forall>d \<in> set (Subfolders folder). Folder_Name d \<noteq> name) \<longrightarrow>
           Find be p = (Return (None, None, Some ErrNoFile), tr)"
  proof
    assume a: "(\<forall>f \<in> set (Files folder). File_Name f \<noteq> name)
           \<and> (\<forall>d \<in> set (Subfolders folder). Folder_Name d \<noteq> name)"
    then have "?ff = None" "?fd = None" by (auto simp: find_None_iff)
    with F show "Find be p = (Return (None, None, Some ErrNoFile), tr)" by simp
  qed
  have 4: "\<forall>fo fi. fst (Find be p) = Return (fo, fi, None) \<longrightarrow> (fo = None) \<noteq> (fi = None)"
    using F by (auto split: option.splits)
  from 1 2 3 4 show ?thesis by blast
qed

theorem Find_files_before_folders_witness:
  "Find sample_backend ''/dup'' = (Return (None, Some (sample_file ''f2'' ''dup'' ''/''), None), [GetFoldersReq])
   \<and> Find sample_backend ''/A/B'' = (Return (Some (Folder ''B'' ''/A/B'' 0 [] 0 [] []), None, None), [GetFolderReq ''/A''])
   \<and> Find sample_backend ''/A/y.txt'' = (Return (None, None, Some ErrNoFile), [GetFolderReq ''/A''])"
proof -
  have p1: "ParsePath ''/dup'' = (''/'', ''dup'')"
    and p2: "ParsePath ''/A/B'' = (''/A'', ''B'')"
    and p3: "ParsePath ''/A/y.txt'' = (''/A'', ''y.txt'')"
    by (simp_all add: ParsePath_def strings_Trim_def Let_def)
  have r: "Find_parent sample_backend ''/'' = (Return (Inr sample_root), [GetFoldersReq])"
    by (simp add: Find_parent_def GetFolders_def sample_backend_def folder_ok_def sample_root_def)
  have a: "Find_parent sample_backend ''/A'' = (Return (Inr sample_A), [GetFolderReq ''/A''])"
    by (simp add: Find_parent_def GetFolder_def sample_backend_def folder_ok_def)
  have n: "''dup'' \<noteq> []" "''B'' \<noteq> []" "''y.txt'' \<noteq> []" by simp_all
  note t1 = Find_files_before_folders[OF p1 n(1) r]
  note t2 = Find_files_before_folders[OF p2 n(2) a]
  note t3 = Find_files_before_folders[OF p3 n(3) a]
  have c1: "Find sample_backend ''/dup'' = (Return (None, Some (sample_file ''f2'' ''dup'' ''/''), None), [GetFoldersReq])"
    using t1 by (simp add: sample_root_def sample_file_def)
  have c2: "Find sample_backend ''/A/B'' = (Return (Some (Folder ''B'' ''/A/B'' 0 [] 0 [] []), None, None), [GetFolderReq ''/A''])"
    using t2 by (simp add: sample_A_def sample_file_def)
  have c3: "Find sample_backend ''/A/y.txt'' = (Return (None, None, Some ErrNoFile), [GetFolderReq ''/A''])"
    using t3 by (simp add: sample_A_def sample_file_def)
  from c1 c2 c3 show ?thesis by simp
qed

section \<open>Mkdir and Rename\<close>

















lemma Rename_file_branch:
  assumes "Find be oldName = (Return (None, Some fi, None), tr)"
  shows "snd (Rename be oldName newName) = tr @ [EditFileReq (File_ID fi) (path_Base newName)]"
  using assms by (simp add: Rename_def RenameFile_def Let_def split: prod.splits)

lemma Rename_folder_branch:
  assumes "Find be oldName = (Return (Some fo, fi, None), tr)"
  shows "snd (Rename be oldName newName) =
           tr @ [PatchFolderReq (Folder_Path fo)
                   (if fst (ParsePath newName) \<noteq> fst (ParsePath oldName)
                    then fst (ParsePath newName) else [])
                   (snd (ParsePath newName))]"
  using assms by (simp add: Rename_def MoveFolder_withName_def Let_def split: prod.splits)

lemma Rename_folder_moves:
  "Rename sample_backend ''/A/B'' ''/dup/C''
     = (Return None, [GetFolderReq ''/A'', PatchFolderReq ''/A/B'' ''/dup'' ''C''])"
proof -
  have p: "ParsePath ''/A/B'' = (''/A'', ''B'')" "ParsePath ''/dup/C'' = (''/dup'', ''C'')"
    by (simp_all add: ParsePath_def strings_Trim_def Let_def)
  have f: "Find sample_backend ''/A/B''
             = (Return (Some (Folder ''B'' ''/A/B'' 0 [] 0 [] []), None, None), [GetFolderReq ''/A''])"
    by (simp add: Find_def Find_parent_def GetFolder_def p sample_backend_def folder_ok_def
        sample_A_def sample_file_def)
  show ?thesis
    by (simp add: Rename_def f p MoveFolder_withName_def sample_backend_def folder_ok_def)
qed

text \<open>
  Claim C2 asks for a move that updates location and name when the parent folder changes,
  for files as for folders. For a file, \<open>Rename\<close> never looks at the new parent: renaming
  \<open>/A/x.txt\<close> to \<open>/dup/y.txt\<close> issues, after the lookup, a single edit request that sets
  the file name to \<open>y.txt\<close>, and no request that changes the folder; the call returns
  without error. (\<open>Rename_folder_moves\<close> shows the folder branch passing the new parent
  on the same tree.)
\<close>

theorem Rename_file_keeps_parent:
  "Rename sample_backend ''/A/x.txt'' ''/dup/y.txt''
     = (Return None, [GetFolderReq ''/A'', EditFileReq ''f1'' ''y.txt''])"
proof -
  have p: "ParsePath ''/A/x.txt'' = (''/A'', ''x.txt'')" "ParsePath ''/dup/y.txt'' = (''/dup'', ''y.txt'')"
    by (simp_all add: ParsePath_def strings_Trim_def Let_def)
  have f: "Find sample_backend ''/A/x.txt''
             = (Return (None, Some (sample_file ''f1'' ''x.txt'' ''/A''), None), [GetFolderReq ''/A''])"
    by (simp add: Find_def Find_parent_def GetFolder_def p sample_backend_def folder_ok_def
        sample_A_def) (simp add: sample_file_def)
  have b: "path_Base ''/dup/y.txt'' = ''y.txt''"
    by (simp add: path_Base_def)
  show ?thesis
    by (simp add: Rename_def f p b RenameFile_def sample_backend_def folder_ok_def sample_file_def)
qed

section \<open>ReadAt and the read cache\<close>

lemma ReadAt_steps:
  "ReadAt rc be sr c plen off = (res, tr) \<Longrightarrow>
     (tr = [] \<and> (\<forall>r c' rc'. res = Return (r, c', rc') \<longrightarrow>
          (rc = None \<and> rc' = None) \<or>
          (\<exists>cache cache'. rc = Some cache \<and> rc' = Some cache'
             \<and> set (Cache_keys cache) \<subseteq> set (Cache_keys cache'))))
   \<or> (\<exists>cache. rc = Some cache \<and> readAtStream c = None
         \<and> CraneFile_ID c \<notin> set (Cache_keys cache)
         \<and> tr = [DownloadReq (CraneFile_ID c)]
         \<and> (\<forall>r c' rc'. res = Return (r, c', rc') \<longrightarrow>
               (\<exists>cache'. rc' = Some cache' \<and> CraneFile_ID c \<in> set (Cache_keys cache')
                  \<and> set (Cache_keys cache) \<subseteq> set (Cache_keys cache'))))"
  by (auto simp: ReadAt_def openReadAtStream_def openReadStream_def cache_Get_def
        DownloadFile_def CraneFile_ID_def Let_def
      split: option.splits if_splits prod.splits sum.splits exec.splits)

lemma ReadAt_all_no_cache: "ReadAt_all None be sr ops = []"
  by (induction ops) (auto simp: ReadAt_def)

lemma ReadAt_all_cached:
  "ident \<in> set (Cache_keys cache) \<Longrightarrow> DownloadReq ident \<notin> set (ReadAt_all (Some cache) be sr ops)"
proof (induction ops arbitrary: cache)
  case Nil
  then show ?case by simp
next
  case (Cons op ops)
  obtain c plen off where op: "op = (c, plen, off)" by (cases op) auto
  obtain res tr where r: "ReadAt (Some cache) be sr c plen off = (res, tr)"
    by (cases "ReadAt (Some cache) be sr c plen off") auto
  from ReadAt_steps[OF r] Cons.prems have tr: "DownloadReq ident \<notin> set tr" by auto
  show ?case
  proof (cases res)
    case Panic
    with op r tr show ?thesis by simp
  next
    case (Return x)
    obtain v c' rc' where x: "x = (v, c', rc')" by (cases x) auto
    with ReadAt_steps[OF r] Return Cons.prems obtain cache' where
      "rc' = Some cache'" "ident \<in> set (Cache_keys cache')" by auto
    with Cons.IH[of cache'] op r tr Return x show ?thesis by simp
  qed
qed

lemma ReadAt_all_once:
  "count_list (ReadAt_all rc be sr ops) (DownloadReq ident) \<le> 1"
proof (induction ops arbitrary: rc)
  case Nil
  then show ?case by simp
next
  case (Cons op ops)
  obtain c plen off where op: "op = (c, plen, off)" by (cases op) auto
  obtain res tr where r: "ReadAt rc be sr c plen off = (res, tr)"
    by (cases "ReadAt rc be sr c plen off") auto
  from ReadAt_steps[OF r] have len: "tr = [] \<or> tr = [DownloadReq (CraneFile_ID c)]" by auto
  show ?case
  proof (cases res)
    case Panic
    with op r len show ?thesis by auto
  next
    case (Return x)
    obtain v c' rc' where x: "x = (v, c', rc')" by (cases x) auto
    have all: "ReadAt_all rc be sr (op # ops) = tr @ ReadAt_all rc' be sr ops"
      using op r Return x by simp
    show ?thesis
    proof (cases "DownloadReq ident \<in> set tr")
      case False
      then have "count_list tr (DownloadReq ident) = 0" by (simp add: count_list_0_iff)
      with all Cons.IH[of rc'] show ?thesis by simp
    next
      case True
      with ReadAt_steps[OF r] Return x obtain cache' where
        c': "rc' = Some cache'" "ident \<in> set (Cache_keys cache')" by auto
      from True len have "tr = [DownloadReq ident]" by auto
      moreover have "count_list (ReadAt_all rc' be sr ops) (DownloadReq ident) = 0"
        using ReadAt_all_cached[OF c'(2)] c'(1) by (simp add: count_list_0_iff)
      ultimately show ?thesis using all by simp
    qed
  qed
qed

text \<open>
  Claim C9, amended. Let the open file have a file record and let the offset be at or
  past its recorded size, with a read cache configured. If the cache stream of this open
  file is already open, \<open>ReadAt\<close> returns 0 bytes and EOF, issues no request and leaves
  file and cache unchanged. Otherwise it first opens the cache stream. If the cache reports
  an error, \<open>ReadAt\<close> returns -1 and that error, with no request. If the cache holds a
  stream for the file's identifier, \<open>ReadAt\<close> returns 0 bytes and EOF, with no request.
  If the cache holds none (the first access for that identifier), \<open>ReadAt\<close> issues exactly
  the download request for the file; it returns 0 bytes and EOF when the download opens
  (a response with status 200) and -1 with an error otherwise. Over any sequence of
  \<open>ReadAt\<close> calls on files sharing the cache, a download of one identifier is requested at
  most once.
\<close>

theorem ReadAt_past_end:
  assumes "cf_file c = Some f" and "off \<ge> File_Size f"
  shows "(readAtStream c \<noteq> None \<longrightarrow>
            ReadAt (Some cache) be sr c plen off = (Return ((0, Some EOF), c, Some cache), []))
       \<and> (\<forall>err. readAtStream c = None \<and> Cache_fault cache (File_ID f) = Some err \<longrightarrow>
            ReadAt (Some cache) be sr c plen off = (Return ((- 1, Some err), c, Some cache), []))
       \<and> (readAtStream c = None \<and> Cache_fault cache (File_ID f) = None
            \<and> File_ID f \<in> set (Cache_keys cache) \<longrightarrow>
            ReadAt (Some cache) be sr c plen off
              = (Return ((0, Some EOF), c\<lparr>readAtStream := Some (File_ID f)\<rparr>, Some cache), []))
       \<and> (readAtStream c = None \<and> Cache_fault cache (File_ID f) = None
            \<and> File_ID f \<notin> set (Cache_keys cache) \<longrightarrow>
            snd (ReadAt (Some cache) be sr c plen off) = [DownloadReq (File_ID f)]
            \<and> ((\<exists>res. be (DownloadReq (File_ID f)) = Inr res \<and> StatusCode res = 200) \<longrightarrow>
                 fst (ReadAt (Some cache) be sr c plen off)
                   = Return ((0, Some EOF),
                             c\<lparr>readStream := Some (File_ID f), readAtStream := Some (File_ID f)\<rparr>,
                             Some (cache\<lparr>Cache_keys := File_ID f # Cache_keys cache\<rparr>)))
            \<and> (\<not> (\<exists>res. be (DownloadReq (File_ID f)) = Inr res \<and> StatusCode res = 200) \<longrightarrow>
                 (\<exists>err. fst (ReadAt (Some cache) be sr c plen off)
                   = Return ((- 1, Some err), c,
                             Some (cache\<lparr>Cache_keys := File_ID f # Cache_keys cache\<rparr>)))))
       \<and> (\<forall>ops rc ident. count_list (ReadAt_all rc be sr ops) (DownloadReq ident) \<le> 1)"
proof (intro conjI impI allI)
  assume "readAtStream c \<noteq> None"
  with assms show "ReadAt (Some cache) be sr c plen off = (Return ((0, Some EOF), c, Some cache), [])"
    by (auto simp: ReadAt_def)
next
  fix err
  assume "readAtStream c = None \<and> Cache_fault cache (File_ID f) = Some err"
  with assms show "ReadAt (Some cache) be sr c plen off = (Return ((- 1, Some err), c, Some cache), [])"
    by (simp add: ReadAt_def openReadAtStream_def cache_Get_def CraneFile_ID_def)
next
  assume "readAtStream c = None \<and> Cache_fault cache (File_ID f) = None
            \<and> File_ID f \<in> set (Cache_keys cache)"
  with assms show "ReadAt (Some cache) be sr c plen off
              = (Return ((0, Some EOF), c\<lparr>readAtStream := Some (File_ID f)\<rparr>, Some cache), [])"
    by (simp add: ReadAt_def openReadAtStream_def cache_Get_def CraneFile_ID_def)
next
  assume "readAtStream c = None \<and> Cache_fault cache (File_ID f) = None
            \<and> File_ID f \<notin> set (Cache_keys cache)"
  with assms show "snd (ReadAt (Some cache) be sr c plen off) = [DownloadReq (File_ID f)]"
    by (simp add: ReadAt_def openReadAtStream_def openReadStream_def cache_Get_def
        CraneFile_ID_def DownloadFile_def Let_def split: sum.splits)
next
  assume a: "readAtStream c = None \<and> Cache_fault cache (File_ID f) = None
            \<and> File_ID f \<notin> set (Cache_keys cache)"
    and "\<exists>res. be (DownloadReq (File_ID f)) = Inr res \<and> StatusCode res = 200"
  then obtain res where "be (DownloadReq (File_ID f)) = Inr res" "StatusCode res = 200" by auto
  with a assms show "fst (ReadAt (Some cache) be sr c plen off)
                   = Return ((0, Some EOF),
                             c\<lparr>readStream := Some (File_ID f), readAtStream := Some (File_ID f)\<rparr>,
                             Some (cache\<lparr>Cache_keys := File_ID f # Cache_keys cache\<rparr>))"
    by (simp add: ReadAt_def openReadAtStream_def openReadStream_def cache_Get_def
        CraneFile_ID_def DownloadFile_def Let_def)
next
  assume a: "readAtStream c = None \<and> Cache_fault cache (File_ID f) = None
            \<and> File_ID f \<notin> set (Cache_keys cache)"
    and n: "\<not> (\<exists>res. be (DownloadReq (File_ID f)) = Inr res \<and> StatusCode res = 200)"
  then have "\<exists>err. fst (DownloadFile be (File_ID f)) = Some err"
    by (auto simp: DownloadFile_def Let_def split: sum.splits)
  then obtain err tr where "DownloadFile be (File_ID f) = (Some err, tr)"
    by (cases "DownloadFile be (File_ID f)") auto
  with a assms show "\<exists>err. fst (ReadAt (Some cache) be sr c plen off)
                   = Return ((- 1, Some err), c,
                             Some (cache\<lparr>Cache_keys := File_ID f # Cache_keys cache\<rparr>))"
    by (simp add: ReadAt_def openReadAtStream_def openReadStream_def cache_Get_def
        CraneFile_ID_def)
next
  fix ops rc ident
  show "count_list (ReadAt_all rc be sr ops) (DownloadReq ident) \<le> 1"
    by (rule ReadAt_all_once)
qed

theorem ReadAt_past_end_witness:
  "ReadAt (Some (empty_cache\<lparr>Cache_keys := [''f1'']\<rparr>)) sample_backend no_data sample_handle 4 10
     = (Return ((0, Some EOF), sample_handle\<lparr>readAtStream := Some ''f1''\<rparr>,
                Some (empty_cache\<lparr>Cache_keys := [''f1'']\<rparr>)), [])
   \<and> ReadAt (Some empty_cache) sample_backend no_data (sample_handle\<lparr>readAtStream := Some ''f1''\<rparr>) 4 12
     = (Return ((0, Some EOF), sample_handle\<lparr>readAtStream := Some ''f1''\<rparr>, Some empty_cache), [])
   \<and> fst (ReadAt (Some empty_cache) sample_backend no_data sample_handle 4 10)
     = Return ((0, Some EOF),
               sample_handle\<lparr>readStream := Some ''f1'', readAtStream := Some ''f1''\<rparr>,
               Some (empty_cache\<lparr>Cache_keys := [''f1'']\<rparr>))
   \<and> ReadAt (Some (empty_cache\<lparr>Cache_fault := (\<lambda>k. Some (External ''cache''))\<rparr>))
         sample_backend no_data sample_handle 4 10
     = (Return ((- 1, Some (External ''cache'')), sample_handle,
                Some (empty_cache\<lparr>Cache_fault := (\<lambda>k. Some (External ''cache''))\<rparr>)), [])"
proof -
  have f: "cf_file sample_handle = Some (sample_file ''f1'' ''x.txt'' ''/A'')"
    and f': "cf_file (sample_handle\<lparr>readAtStream := Some ''f1''\<rparr>) = Some (sample_file ''f1'' ''x.txt'' ''/A'')"
    by (simp_all add: sample_handle_def)
  have s: "File_Size (sample_file ''f1'' ''x.txt'' ''/A'') \<le> 10"
    and s': "File_Size (sample_file ''f1'' ''x.txt'' ''/A'') \<le> 12"
    by (simp_all add: sample_file_def)
  have i: "File_ID (sample_file ''f1'' ''x.txt'' ''/A'') = ''f1''"
    by (simp add: sample_file_def)
  note t1 = ReadAt_past_end[OF f s, of "empty_cache\<lparr>Cache_keys := [''f1'']\<rparr>" sample_backend no_data 4]
  note t2 = ReadAt_past_end[OF f' s', of empty_cache sample_backend no_data 4]
  note t3 = ReadAt_past_end[OF f s, of empty_cache sample_backend no_data 4]
  note t4 = ReadAt_past_end[OF f s, of "empty_cache\<lparr>Cache_fault := (\<lambda>k. Some (External ''cache''))\<rparr>"
      sample_backend no_data 4]
  have 1: "ReadAt (Some (empty_cache\<lparr>Cache_keys := [''f1'']\<rparr>)) sample_backend no_data sample_handle 4 10
     = (Return ((0, Some EOF), sample_handle\<lparr>readAtStream := Some ''f1''\<rparr>,
                Some (empty_cache\<lparr>Cache_keys := [''f1'']\<rparr>)), [])"
    using t1 by (simp add: i) (simp add: sample_handle_def empty_cache_def)
  have 2: "ReadAt (Some empty_cache) sample_backend no_data (sample_handle\<lparr>readAtStream := Some ''f1''\<rparr>) 4 12
     = (Return ((0, Some EOF), sample_handle\<lparr>readAtStream := Some ''f1''\<rparr>, Some empty_cache), [])"
    using t2 by (simp add: sample_handle_def)
  have d: "\<exists>res. sample_backend (DownloadReq ''f1'') = Inr res \<and> StatusCode res = 200"
    by (simp add: sample_backend_def folder_ok_def)
  have 3: "fst (ReadAt (Some empty_cache) sample_backend no_data sample_handle 4 10)
     = Return ((0, Some EOF),
               sample_handle\<lparr>readStream := Some ''f1'', readAtStream := Some ''f1''\<rparr>,
               Some (empty_cache\<lparr>Cache_keys := [''f1'']\<rparr>))"
    using t3 d by (simp add: i) (simp add: sample_handle_def empty_cache_def)
  have 4: "ReadAt (Some (empty_cache\<lparr>Cache_fault := (\<lambda>k. Some (External ''cache''))\<rparr>))
         sample_backend no_data sample_handle 4 10
     = (Return ((- 1, Some (External ''cache'')), sample_handle,
                Some (empty_cache\<lparr>Cache_fault := (\<lambda>k. Some (External ''cache''))\<rparr>)), [])"
    using t4 by (simp add: i) (simp add: sample_handle_def empty_cache_def)
  from 1 2 3 4 show ?thesis by simp
qed

text \<open>
  The claim as stated fails on the first access: with an empty cache and a file of size 10,
  \<open>ReadAt\<close> at offset 10 returns 0 bytes and EOF only after requesting the download.
\<close>

theorem ReadAt_past_end_downloads:
  "cf_file sample_handle = Some (sample_file ''f1'' ''x.txt'' ''/A'')
   \<and> File_Size (sample_file ''f1'' ''x.txt'' ''/A'') \<le> 10
   \<and> ReadAt (Some empty_cache) sample_backend no_data sample_handle 4 10
       = (Return ((0, Some EOF),
                  sample_handle\<lparr>readStream := Some ''f1'', readAtStream := Some ''f1''\<rparr>,
                  Some (empty_cache\<lparr>Cache_keys := [''f1'']\<rparr>)),
          [DownloadReq ''f1''])"
  by (simp add: ReadAt_def openReadAtStream_def openReadStream_def cache_Get_def
        CraneFile_ID_def DownloadFile_def sample_handle_def empty_cache_def sample_file_def
        sample_backend_def folder_ok_def)

section \<open>GetToken: refresh inside the grace period\<close>

lemma GetToken_returns_cached:
  assumes "store am = None" and "GetToken am http username now1 now2 = Return (am', tok, None)"
  shows "\<exists>cred. lastResponse am = Some cred \<and> tok = Token cred"
  using assms
  by (auto simp: GetToken_def split: option.splits if_splits exec.splits prod.splits)

text \<open>
  Claim C1 asks that a credential inside the grace window is refreshed first and that the
  refreshed token is returned, so that no returned token is valid for less than five
  minutes. \<open>GetToken\<close> does refresh, but returns the token it read before the refresh:
  with the cached token \<open>old\<close> expiring 60 seconds from now and a backend that answers the
  refresh with the token \<open>new\<close>, the call leaves \<open>new\<close> in the manager and returns
  \<open>old\<close>. (\<open>GetToken_returns_cached\<close>: without a store, every token returned is the
  one cached before the call.)
\<close>

theorem GetToken_returns_stale_token:
  "GetToken \<lparr>lastResponse = Some old_credential, store = None\<rparr> sample_auth NoValue 0 0
     = Return (\<lparr>lastResponse = Some new_credential, store = None\<rparr>, ''old'', None)
   \<and> TokenExpiration old_credential < 0 + grace
   \<and> \<not> RefreshTokenExpiration old_credential < 0"
  by (simp add: GetToken_def authManager_RefreshToken_def sample_auth_def auth_ok_def
      old_credential_def new_credential_def grace_def)

lemma Authenticate_store_mode:
  "lastResponse (fst (Authenticate (NewAuthManager (Some st)) http u p c)) = None"
  by (simp add: Authenticate_def NewAuthManager_def split: sum.splits)

text \<open>
  Claim C10. With a store configured, \<open>Authenticate\<close> leaves the manager's in-memory
  credential nil, whatever the backend answers. For every manager with a store and a nil
  in-memory credential: if the store holds for the user a credential with a non-empty
  token, an unexpired refresh token and an access token expiring within the grace period,
  \<open>GetToken\<close> panics (the refresh dereferences the nil credential) instead of refreshing
  or returning an error. Such a state is reached: a new manager with a store, after a
  successful \<open>Authenticate\<close> whose token is inside the grace period.
\<close>

theorem GetToken_store_mode_panics:
  "lastResponse (fst (Authenticate (NewAuthManager (Some st)) http u p c)) = None
   \<and> (store am = Some st' \<and> lastResponse am = None
        \<and> st' (case username of StringValue s \<Rightarrow> s | _ \<Rightarrow> defaultUsername) = (Some cred, None)
        \<and> username \<noteq> OtherValue
        \<and> Token cred \<noteq> [] \<and> \<not> RefreshTokenExpiration cred < now1
        \<and> TokenExpiration cred < now2 + grace
      \<longrightarrow> GetToken am http' username now1 now2 = Panic)
   \<and> GetToken (fst (Authenticate (NewAuthManager (Some empty_store)) sample_auth ''default'' ''pw'' []))
         sample_auth NoValue 0 0 = Panic"
proof (intro conjI impI)
  show "lastResponse (fst (Authenticate (NewAuthManager (Some st)) http u p c)) = None"
    by (rule Authenticate_store_mode)
next
  assume "store am = Some st' \<and> lastResponse am = None
        \<and> st' (case username of StringValue s \<Rightarrow> s | _ \<Rightarrow> defaultUsername) = (Some cred, None)
        \<and> username \<noteq> OtherValue
        \<and> Token cred \<noteq> [] \<and> \<not> RefreshTokenExpiration cred < now1
        \<and> TokenExpiration cred < now2 + grace"
  then show "GetToken am http' username now1 now2 = Panic"
    by (cases username) (simp_all add: GetToken_def authManager_RefreshToken_def)
next
  show "GetToken (fst (Authenticate (NewAuthManager (Some empty_store)) sample_auth ''default'' ''pw'' []))
         sample_auth NoValue 0 0 = Panic"
    by (simp add: GetToken_def authManager_RefreshToken_def Authenticate_def NewAuthManager_def
        sample_auth_def auth_ok_def store_Set_def defaultUsername_def old_credential_def grace_def)
qed

theorem GetToken_store_mode_panics_witness:
  "GetToken \<lparr>lastResponse = None, store = Some (store_Set empty_store ''alice'' old_credential)\<rparr>
     sample_auth (StringValue ''alice'') 0 0 = Panic"
proof -
  have h: "store \<lparr>lastResponse = None, store = Some (store_Set empty_store ''alice'' old_credential)\<rparr>
             = Some (store_Set empty_store ''alice'' old_credential)
        \<and> lastResponse \<lparr>lastResponse = None, store = Some (store_Set empty_store ''alice'' old_credential)\<rparr> = None
        \<and> store_Set empty_store ''alice'' old_credential
             (case StringValue ''alice'' of StringValue s \<Rightarrow> s | _ \<Rightarrow> defaultUsername)
             = (Some old_credential, None)
        \<and> StringValue ''alice'' \<noteq> OtherValue
        \<and> Token old_credential \<noteq> [] \<and> \<not> RefreshTokenExpiration old_credential < 0
        \<and> TokenExpiration old_credential < 0 + grace"
    by (simp add: store_Set_def old_credential_def grace_def)
  from GetToken_store_mode_panics[of empty_store sample_auth "[]" "[]" "[]"
      "\<lparr>lastResponse = None, store = Some (store_Set empty_store ''alice'' old_credential)\<rparr>"
      "store_Set empty_store ''alice'' old_credential" "StringValue ''alice''" old_credential 0 0 sample_auth] h
  show ?thesis by blast
qed

end
